theory Spec2Isabelle
  imports Main "HOL-Library.DAList"
begin

section \<open>Requests, responses and the browser's cache storage\<close>

text \<open>
  The offline cache controller of \<^verbatim>\<open>sw.js\<close> is three event handlers over the
  browser's \<^verbatim>\<open>caches\<close> object. A URL is kept as origin, path and query string, since
  \<^verbatim>\<open>ignoreSearch\<close> compares URLs with the query string removed.
\<close>

record url =
  url_origin :: string
  url_path :: string
  url_search :: string

text \<open>
  A request carries its header list, with the names in lower case since the platform compares
  them without regard to case. Of a response's headers only \<^verbatim>\<open>Vary\<close> matters to
  the cache: \<open>resp_vary\<close> is the list of the names that header gives, in lower case,
  and is empty when the response has no such header.
\<close>

record request =
  req_method :: string
  req_url :: url
  req_headers :: "(string \<times> string) list"

record response =
  resp_status :: nat
  resp_vary :: "string list"
  resp_body :: string

text \<open>
  A cache is the ordered list of its stored request/response pairs. The cache storage maps
  each cache name to its cache, names being distinct and kept in creation order.
\<close>

type_synonym cache = "(request \<times> response) list"

type_synonym cache_storage = "(string, cache) alist"

text \<open>The network: a request yields a response, or fails with no response at all.\<close>

type_synonym network = "request \<Rightarrow> response option"

datatype cache_op =
  OpOpen string
  | OpKeys
  | OpDelete string
  | OpAddAll string "url list"
  | OpMatch string url

text \<open>
  The state the handlers act on: the cache storage, the log of the cache operations performed
  so far, and whether \<^verbatim>\<open>self.skipWaiting()\<close> and \<^verbatim>\<open>self.clients.claim()\<close>
  have been called.
\<close>

record worker =
  caches :: cache_storage
  oplog :: "cache_op list"
  skip_waiting :: bool
  claimed :: bool

datatype error = TypeError

section \<open>The cache storage operations the handlers call\<close>

definition cache_names :: "cache_storage \<Rightarrow> string list" where
  "cache_names cs = map fst (DAList.impl_of cs)"

text \<open>\<^verbatim>\<open>caches.open(name)\<close>: the cache of that name, created empty when there is none.\<close>

definition caches_open :: "string \<Rightarrow> worker \<Rightarrow> worker" where
  "caches_open n w =
     w\<lparr>caches := (case DAList.lookup (caches w) n of
                    None \<Rightarrow> DAList.update n [] (caches w)
                  | Some c \<Rightarrow> caches w),
       oplog := oplog w @ [OpOpen n]\<rparr>"

text \<open>\<^verbatim>\<open>caches.keys()\<close>: the names of all caches.\<close>

definition caches_keys :: "worker \<Rightarrow> string list \<times> worker" where
  "caches_keys w = (cache_names (caches w), w\<lparr>oplog := oplog w @ [OpKeys]\<rparr>)"

text \<open>\<^verbatim>\<open>caches.delete(name)\<close>.\<close>

definition caches_delete :: "string \<Rightarrow> worker \<Rightarrow> worker" where
  "caches_delete n w =
     w\<lparr>caches := DAList.delete n (caches w), oplog := oplog w @ [OpDelete n]\<rparr>"

text \<open>\<^verbatim>\<open>new Request(url)\<close>, which is what a URL given as a string stands for: a GET
  request with an empty header list.\<close>

definition new_request :: "url \<Rightarrow> request" where
  "new_request u = \<lparr>req_method = ''GET'', req_url = u, req_headers = []\<rparr>"

text \<open>
  The combined value of a header name in a header list: the values of the headers of that
  name joined by a comma and a space, or nothing when there is no such header.
\<close>

fun join_values :: "string list \<Rightarrow> string" where
  "join_values [] = []"
| "join_values [v] = v"
| "join_values (v # vs) = v @ '', '' @ join_values vs"

definition combined_value :: "string \<Rightarrow> (string \<times> string) list \<Rightarrow> string option" where
  "combined_value name hs =
     (case map snd (filter (\<lambda>(n, v). n = name) hs) of
        [] \<Rightarrow> None
      | vs \<Rightarrow> Some (join_values vs))"

text \<open>
  Whether a stored pair matches a request. The stored request must be a GET request. With
  \<^verbatim>\<open>ignoreSearch\<close> the query strings of both URLs are emptied before the URLs are
  compared. As \<^verbatim>\<open>ignoreVary\<close> is never set, the stored response's
  \<^verbatim>\<open>Vary\<close> header is honoured: it must not name \<^verbatim>\<open>*\<close>, and for every
  header it names the stored request and the request must have the same combined value.
\<close>

definition strip_search :: "url \<Rightarrow> url" where
  "strip_search u = u\<lparr>url_search := []\<rparr>"

definition vary_agrees :: "response \<Rightarrow> request \<Rightarrow> request \<Rightarrow> bool" where
  "vary_agrees r cached requested =
     (\<forall>f \<in> set (resp_vary r).
        f \<noteq> ''*''
        \<and> combined_value f (req_headers cached) = combined_value f (req_headers requested))"

definition request_matches :: "bool \<Rightarrow> request \<times> response \<Rightarrow> request \<Rightarrow> bool" where
  "request_matches ignoreSearch stored requested =
     (case stored of
        (cached, r) \<Rightarrow>
          req_method cached = ''GET''
          \<and> (if ignoreSearch
               then strip_search (req_url cached) = strip_search (req_url requested)
               else req_url cached = req_url requested)
          \<and> vary_agrees r cached requested)"

text \<open>
  \<^verbatim>\<open>cache.match(request, options)\<close>: the response of the first stored pair that
  matches, or \<^verbatim>\<open>undefined\<close>; a request of another method than GET matches
  nothing. The cache is named by the handle that \<^verbatim>\<open>caches.open\<close> returned, so in
  the handlers it exists.
\<close>

fun first_match :: "bool \<Rightarrow> request \<Rightarrow> cache \<Rightarrow> response option" where
  "first_match ignoreSearch q [] = None"
| "first_match ignoreSearch q ((k, r) # c) =
     (if request_matches ignoreSearch (k, r) q then Some r else first_match ignoreSearch q c)"

definition cache_match ::
  "string \<Rightarrow> request \<Rightarrow> bool \<Rightarrow> worker \<Rightarrow> response option \<times> worker" where
  "cache_match n q ignoreSearch w =
     ((if req_method q \<noteq> ''GET'' then None
       else case DAList.lookup (caches w) n of
              None \<Rightarrow> None
            | Some c \<Rightarrow> first_match ignoreSearch q c),
      w\<lparr>oplog := oplog w @ [OpMatch n (req_url q)]\<rparr>)"

text \<open>Storing a pair removes the stored pairs that match its request and appends it.\<close>

definition cache_put :: "request \<Rightarrow> response \<Rightarrow> cache \<Rightarrow> cache" where
  "cache_put q r c = filter (\<lambda>stored. \<not> request_matches False stored q) c @ [(q, r)]"

text \<open>
  \<^verbatim>\<open>cache.addAll(urls)\<close> fetches the request of every URL and rejects with a
  \<^verbatim>\<open>TypeError\<close>, storing nothing, when a fetch fails or its response has a status
  outside 200..299, the status 206, or a \<^verbatim>\<open>Vary\<close> header naming
  \<^verbatim>\<open>*\<close>; otherwise it stores all the pairs. As for \<^verbatim>\<open>cache.match\<close>, the
  cache named by the handle exists in the handlers.
\<close>

definition ok_status :: "nat \<Rightarrow> bool" where
  "ok_status s = (200 \<le> s \<and> s \<le> 299)"

fun fetch_all :: "network \<Rightarrow> url list \<Rightarrow> (request \<times> response) list option" where
  "fetch_all net [] = Some []"
| "fetch_all net (u # us) =
     (case net (new_request u) of
        None \<Rightarrow> None
      | Some r \<Rightarrow>
          if \<not> ok_status (resp_status r) \<or> resp_status r = 206
             \<or> ''*'' \<in> set (resp_vary r)
          then None
          else (case fetch_all net us of
                  None \<Rightarrow> None
                | Some rs \<Rightarrow> Some ((new_request u, r) # rs)))"

definition cache_addAll :: "string \<Rightarrow> network \<Rightarrow> url list \<Rightarrow> worker \<Rightarrow> (error + unit) \<times> worker" where
  "cache_addAll n net us w =
     (let w1 = w\<lparr>oplog := oplog w @ [OpAddAll n us]\<rparr> in
      case fetch_all net us of
        None \<Rightarrow> (Inl TypeError, w1)
      | Some batch \<Rightarrow>
          (case DAList.lookup (caches w1) n of
             None \<Rightarrow> (Inr (), w1)
           | Some c \<Rightarrow>
               (Inr (),
                w1\<lparr>caches :=
                     DAList.update n (fold (\<lambda>(q, r). cache_put q r) batch c) (caches w1)\<rparr>)))"

section \<open>The controller\<close>

definition CACHE_NAME :: string where
  "CACHE_NAME = ''ctc-static-v1''"

definition OFFLINE_URL :: string where
  "OFFLINE_URL = ''/offline.html''"

definition CORE_ASSETS :: "string list" where
  "CORE_ASSETS = [''/'', ''/offline.html'', ''/about/'', ''/events/'', ''/team/'']"

text \<open>
  A URL given as a path is resolved against the worker's own origin: a fragment, from the
  first \<^verbatim>\<open>#\<close> on, is dropped, and what follows the first \<^verbatim>\<open>?\<close> is the query
  string.
\<close>

definition resolve :: "string \<Rightarrow> string \<Rightarrow> url" where
  "resolve og s =
     (let s' = takeWhile (\<lambda>c. c \<noteq> CHR ''#'') s
      in \<lparr>url_origin = og,
          url_path = takeWhile (\<lambda>c. c \<noteq> CHR ''?'') s',
          url_search = dropWhile (\<lambda>c. c \<noteq> CHR ''?'') s'\<rparr>)"

text \<open>The install handler: open the cache, add the core assets, then skip waiting.\<close>

definition install :: "string \<Rightarrow> network \<Rightarrow> worker \<Rightarrow> (error + unit) \<times> worker" where
  "install og net w =
     (let w1 = caches_open CACHE_NAME w;
          (res, w2) = cache_addAll CACHE_NAME net (map (resolve og) CORE_ASSETS) w1
      in case res of
           Inl e \<Rightarrow> (Inl e, w2)
         | Inr _ \<Rightarrow> (Inr (), w2\<lparr>skip_waiting := True\<rparr>))"

text \<open>The activate handler: delete every cache not named \<^verbatim>\<open>CACHE_NAME\<close>, then claim
  the clients.\<close>

definition activate :: "worker \<Rightarrow> worker" where
  "activate w =
     (let (keys, w1) = caches_keys w;
          w2 = fold caches_delete (filter (\<lambda>k. k \<noteq> CACHE_NAME) keys) w1
      in w2\<lparr>claimed := True\<rparr>)"

text \<open>
  The fetch handler either returns without calling \<^verbatim>\<open>respondWith\<close>, leaving the
  request to the browser, or responds with what its promise resolves to: a response, or
  \<^verbatim>\<open>undefined\<close>.
\<close>

datatype outcome = PassThrough | RespondWith "response option"

definition fetch_handler :: "string \<Rightarrow> network \<Rightarrow> request \<Rightarrow> worker \<Rightarrow> outcome \<times> worker" where
  "fetch_handler og net req w =
     (if req_method req \<noteq> ''GET'' then (PassThrough, w)
      else case net req of
             Some fresh \<Rightarrow> (RespondWith (Some fresh), w)
           | None \<Rightarrow>
               (let w1 = caches_open CACHE_NAME w;
                    (cached, w2) = cache_match CACHE_NAME req True w1
                in case cached of
                     Some r \<Rightarrow> (RespondWith (Some r), w2)
                   | None \<Rightarrow>
                       (let (offline, w3) =
                              cache_match CACHE_NAME (new_request (resolve og OFFLINE_URL)) True w2
                        in (RespondWith offline, w3))))"

section \<open>Observations and scenarios\<close>

text \<open>The stored pairs of the current generation; none when that cache does not exist.\<close>

definition generation :: "worker \<Rightarrow> cache" where
  "generation w = (case DAList.lookup (caches w) CACHE_NAME of None \<Rightarrow> [] | Some c \<Rightarrow> c)"

text \<open>The requests that \<^verbatim>\<open>addAll\<close> makes for the core assets.\<close>

definition core_requests :: "string \<Rightarrow> request list" where
  "core_requests og = map new_request (map (resolve og) CORE_ASSETS)"

text \<open>
  Concrete states, networks and requests for the scenarios of the specification: a site
  origin, a storage that holds only the generation of an earlier deployment, an empty
  storage, and networks that answer everything, answer everything with
  \<^verbatim>\<open>Vary: Accept\<close>, answer \<^verbatim>\<open>/team/\<close> with 404, answer everything with 404, or
  are unreachable.
\<close>

definition site :: string where
  "site = ''https://ctc.example''"

definition earlier_deployment :: worker where
  "earlier_deployment =
     \<lparr>caches = DAList.update ''ctc-static-v0''
                 [(new_request \<lparr>url_origin = site, url_path = ''/'', url_search = []\<rparr>,
                   \<lparr>resp_status = 200, resp_vary = [], resp_body = ''old home''\<rparr>)]
                 DAList.empty,
      oplog = [], skip_waiting = False, claimed = False\<rparr>"

definition empty_storage :: worker where
  "empty_storage = \<lparr>caches = DAList.empty, oplog = [], skip_waiting = False, claimed = False\<rparr>"

definition reachable :: network where
  "reachable req =
     Some \<lparr>resp_status = 200, resp_vary = [], resp_body = url_path (req_url req)\<rparr>"

definition varying :: network where
  "varying req =
     Some \<lparr>resp_status = 200, resp_vary = [''accept''], resp_body = url_path (req_url req)\<rparr>"

definition team_missing :: network where
  "team_missing req =
     (if url_path (req_url req) = ''/team/''
      then Some \<lparr>resp_status = 404, resp_vary = [], resp_body = ''not found''\<rparr>
      else Some \<lparr>resp_status = 200, resp_vary = [], resp_body = url_path (req_url req)\<rparr>)"

definition all_not_found :: network where
  "all_not_found req = Some \<lparr>resp_status = 404, resp_vary = [], resp_body = ''not found''\<rparr>"

definition unreachable :: network where
  "unreachable req = None"

definition get_about :: request where
  "get_about =
     \<lparr>req_method = ''GET'',
      req_url = \<lparr>url_origin = site, url_path = ''/about/'', url_search = ''?x=1''\<rparr>,
      req_headers = [(''accept'', ''text/html'')]\<rparr>"

definition get_nonexistent :: request where
  "get_nonexistent =
     \<lparr>req_method = ''GET'',
      req_url = \<lparr>url_origin = site, url_path = ''/nonexistent-page'', url_search = []\<rparr>,
      req_headers = [(''accept'', ''text/html'')]\<rparr>"

definition post_form :: request where
  "post_form =
     \<lparr>req_method = ''POST'',
      req_url = \<lparr>url_origin = site, url_path = ''/about/'', url_search = []\<rparr>,
      req_headers = []\<rparr>"

text \<open>The steady state of the scenarios: installed over the earlier deployment, then
  activated; once from the plain network and once from the one that answers with
  \<^verbatim>\<open>Vary: Accept\<close>.\<close>

definition serving :: worker where
  "serving = activate (snd (install site reachable earlier_deployment))"

definition serving_varying :: worker where
  "serving_varying = activate (snd (install site varying earlier_deployment))"

lemmas scenario_defs =
  site_def earlier_deployment_def empty_storage_def reachable_def varying_def team_missing_def
  all_not_found_def unreachable_def get_about_def get_nonexistent_def post_form_def serving_def
  serving_varying_def

lemmas controller_defs =
  install_def activate_def fetch_handler_def caches_open_def caches_keys_def caches_delete_def
  cache_addAll_def cache_match_def cache_put_def request_matches_def vary_agrees_def
  combined_value_def new_request_def strip_search_def
  ok_status_def resolve_def CACHE_NAME_def OFFLINE_URL_def CORE_ASSETS_def cache_names_def
  generation_def Let_def DAList.lookup_update DAList.update.rep_eq DAList.empty.rep_eq
  DAList.delete.rep_eq

section \<open>Properties of the cache operations\<close>

lemma lookup_caches_open:
  "DAList.lookup (caches (caches_open n w)) k =
     (if k = n then Some (case DAList.lookup (caches w) n of None \<Rightarrow> [] | Some c \<Rightarrow> c)
      else DAList.lookup (caches w) k)"
  by (simp add: caches_open_def DAList.lookup_update split: option.splits)

lemma generation_open:
  "DAList.lookup (caches (caches_open CACHE_NAME w)) CACHE_NAME = Some (generation w)"
  by (simp add: lookup_caches_open generation_def)

lemma update_same: "DAList.lookup cs n = Some c \<Longrightarrow> DAList.update n c cs = cs"
  by transfer (simp add: update_triv)

text \<open>With \<^verbatim>\<open>ignoreSearch\<close> two URLs are equal exactly when origin and path agree.\<close>

lemma strip_search_eq:
  "strip_search k = strip_search u \<longleftrightarrow>
     url_origin k = url_origin u \<and> url_path k = url_path u"
  by (cases k, cases u) (simp add: strip_search_def)

lemma request_matches_ignoring_search:
  "request_matches True (k, r) q \<longleftrightarrow>
     req_method k = ''GET''
     \<and> url_origin (req_url k) = url_origin (req_url q)
     \<and> url_path (req_url k) = url_path (req_url q)
     \<and> vary_agrees r k q"
  by (simp add: request_matches_def strip_search_eq)

lemma request_matches_url:
  "request_matches False (k, r) q \<Longrightarrow> req_url k = req_url q"
  by (simp add: request_matches_def)

lemma first_match_find:
  "first_match True q c =
     map_option snd
       (find (\<lambda>(k, r). req_method k = ''GET''
                      \<and> url_origin (req_url k) = url_origin (req_url q)
                      \<and> url_path (req_url k) = url_path (req_url q)
                      \<and> vary_agrees r k q) c)"
proof (induction c)
  case Nil
  then show ?case by simp
next
  case (Cons a c)
  obtain k r where a: "a = (k, r)" by (cases a)
  show ?case using Cons by (simp add: a request_matches_ignoring_search)
qed

lemma first_match_present:
  "(k, r) \<in> set c \<Longrightarrow> request_matches ig (k, r) q \<Longrightarrow> \<exists>r'. first_match ig q c = Some r'"
proof (induction c)
  case Nil
  then show ?case by simp
next
  case (Cons a c)
  obtain k' r' where a: "a = (k', r')" by (cases a)
  show ?case using Cons by (auto simp: a)
qed

lemma first_match_absent:
  "\<forall>(k, r) \<in> set c. \<not> (url_origin (req_url k) = url_origin (req_url q)
                         \<and> url_path (req_url k) = url_path (req_url q)) \<Longrightarrow>
   first_match True q c = None"
proof (induction c)
  case Nil
  then show ?case by simp
next
  case (Cons a c)
  obtain k' r' where a: "a = (k', r')" by (cases a)
  show ?case using Cons by (auto simp: a request_matches_ignoring_search)
qed

text \<open>A stored pair whose request has no headers and whose response does not vary on
  \<^verbatim>\<open>*\<close> matches a request of the same URL without headers.\<close>

lemma new_request_matches:
  "''*'' \<notin> set (resp_vary r) \<Longrightarrow> request_matches False (new_request u, r) (new_request u)"
  by (auto simp: request_matches_def vary_agrees_def new_request_def)

lemma new_request_matches_ignoring_search:
  "''*'' \<notin> set (resp_vary r) \<Longrightarrow> url_origin u' = url_origin u \<Longrightarrow> url_path u' = url_path u \<Longrightarrow>
   request_matches True (new_request u, r) (new_request u')"
  by (auto simp: request_matches_ignoring_search vary_agrees_def new_request_def)

text \<open>Storing a batch of pairwise different URLs removes the pairs that match one of its
  requests and appends the batch.\<close>

lemma fold_put:
  "distinct (map (req_url \<circ> fst) batch) \<Longrightarrow>
   fold (\<lambda>(q, r). cache_put q r) batch c =
     filter (\<lambda>stored. \<forall>q \<in> set (map fst batch). \<not> request_matches False stored q) c @ batch"
proof (induction batch arbitrary: c)
  case Nil
  then show ?case by simp
next
  case (Cons b bs)
  obtain q r where b: "b = (q, r)" by (cases b)
  have later: "\<forall>q' \<in> set (map fst bs). \<not> request_matches False (q, r) q'"
    using Cons.prems b by (auto dest!: request_matches_url)
  have "filter (\<lambda>stored. \<forall>q' \<in> set (map fst bs). \<not> request_matches False stored q')
          (cache_put q r c) =
        filter (\<lambda>stored. \<forall>q' \<in> set (map fst (b # bs)). \<not> request_matches False stored q') c
          @ [b]"
    using later b by (auto simp: cache_put_def intro: filter_cong)
  then show ?case using Cons b by simp
qed

lemma fetch_all_keys: "fetch_all net us = Some batch \<Longrightarrow> map fst batch = map new_request us"
  by (induction us arbitrary: batch) (auto split: option.splits if_splits)

lemma fetch_all_vary:
  "fetch_all net us = Some batch \<Longrightarrow> (q, r) \<in> set batch \<Longrightarrow> ''*'' \<notin> set (resp_vary r)"
  by (induction us arbitrary: batch) (auto split: option.splits if_splits)

lemma fetch_all_fails:
  "u \<in> set us \<Longrightarrow>
   \<forall>r. net (new_request u) = Some r \<longrightarrow>
       \<not> ok_status (resp_status r) \<or> resp_status r = 206 \<Longrightarrow>
   fetch_all net us = None"
  by (induction us) (auto split: option.splits)

lemma distinct_core: "distinct (map (resolve og) CORE_ASSETS)"
  by (simp add: CORE_ASSETS_def resolve_def)

lemma core_path:
  "p \<in> set CORE_ASSETS \<Longrightarrow> url_origin (resolve og p) = og \<and> url_path (resolve og p) = p"
  by (auto simp: CORE_ASSETS_def resolve_def)

lemma filter_distinct_single:
  "distinct xs \<Longrightarrow> x \<in> set xs \<Longrightarrow> filter (\<lambda>n. n = x) xs = [x]"
  by (induction xs) (auto simp: filter_empty_conv)

section \<open>Properties of the handlers\<close>

text \<open>The install handler in closed form.\<close>

lemma install_eq:
  "install og net w =
     (case fetch_all net (map (resolve og) CORE_ASSETS) of
        None \<Rightarrow>
          (Inl TypeError,
           (caches_open CACHE_NAME w)
             \<lparr>oplog := oplog (caches_open CACHE_NAME w)
                         @ [OpAddAll CACHE_NAME (map (resolve og) CORE_ASSETS)]\<rparr>)
      | Some batch \<Rightarrow>
          (Inr (),
           (caches_open CACHE_NAME w)
             \<lparr>oplog := oplog (caches_open CACHE_NAME w)
                         @ [OpAddAll CACHE_NAME (map (resolve og) CORE_ASSETS)],
              caches := DAList.update CACHE_NAME
                          (filter (\<lambda>stored. \<forall>q \<in> set (core_requests og).
                                              \<not> request_matches False stored q)
                             (generation w) @ batch)
                          (caches (caches_open CACHE_NAME w)),
              skip_waiting := True\<rparr>))"
proof (cases "fetch_all net (map (resolve og) CORE_ASSETS)")
  case None
  then show ?thesis by (simp add: install_def cache_addAll_def Let_def)
next
  case (Some batch)
  have keys: "map fst batch = core_requests og"
    using fetch_all_keys [OF Some] by (simp add: core_requests_def)
  have "map (req_url \<circ> fst) batch = map req_url (map fst batch)"
    by simp
  also have "\<dots> = map (resolve og) CORE_ASSETS"
    unfolding keys by (simp add: core_requests_def new_request_def comp_def)
  finally have "distinct (map (req_url \<circ> fst) batch)"
    using distinct_core [of og] by simp
  then have "fold (\<lambda>(q, r). cache_put q r) batch (generation w) =
      filter (\<lambda>stored. \<forall>q \<in> set (core_requests og). \<not> request_matches False stored q)
        (generation w) @ batch"
    using fold_put [of batch "generation w"] unfolding keys by simp
  then show ?thesis
    using Some by (simp add: install_def cache_addAll_def Let_def generation_open)
qed

lemma install_ok:
  assumes "install og net w = (Inr (), w1)"
  obtains batch where "fetch_all net (map (resolve og) CORE_ASSETS) = Some batch"
    and "map fst batch = core_requests og"
    and "caches w1 = DAList.update CACHE_NAME
           (filter (\<lambda>stored. \<forall>q \<in> set (core_requests og). \<not> request_matches False stored q)
              (generation w) @ batch)
           (caches (caches_open CACHE_NAME w))"
    and "generation w1 =
           filter (\<lambda>stored. \<forall>q \<in> set (core_requests og). \<not> request_matches False stored q)
             (generation w) @ batch"
proof (cases "fetch_all net (map (resolve og) CORE_ASSETS)")
  case None
  then show ?thesis using assms by (simp add: install_eq)
next
  case (Some batch)
  have keys: "map fst batch = core_requests og"
    using fetch_all_keys [OF Some] by (simp add: core_requests_def)
  have c: "caches w1 = DAList.update CACHE_NAME
           (filter (\<lambda>stored. \<forall>q \<in> set (core_requests og). \<not> request_matches False stored q)
              (generation w) @ batch)
           (caches (caches_open CACHE_NAME w))"
    using assms Some by (auto simp: install_eq)
  show ?thesis
    using that [OF Some keys c] c by (simp add: generation_def)
qed

lemma install_stores_core:
  assumes "install og net w = (Inr (), w1)" and "p \<in> set CORE_ASSETS"
  shows "\<exists>r. (new_request (resolve og p), r) \<in> set (generation w1)
            \<and> ''*'' \<notin> set (resp_vary r)"
proof -
  from assms(1) obtain batch where
    fetched: "fetch_all net (map (resolve og) CORE_ASSETS) = Some batch" and
    keys: "map fst batch = core_requests og" and
    gen: "generation w1 =
           filter (\<lambda>stored. \<forall>q \<in> set (core_requests og). \<not> request_matches False stored q)
             (generation w) @ batch"
    by (rule install_ok)
  have "new_request (resolve og p) \<in> set (map fst batch)"
    unfolding keys using assms(2) by (simp add: core_requests_def)
  then obtain r where r: "(new_request (resolve og p), r) \<in> set batch" by auto
  then have "''*'' \<notin> set (resp_vary r)"
    using fetch_all_vary [OF fetched] by blast
  then show ?thesis using r unfolding gen by auto
qed

text \<open>The activate handler keeps exactly the caches named \<^verbatim>\<open>CACHE_NAME\<close>.\<close>

lemma names_fold_delete:
  "cache_names (caches (fold caches_delete ks w)) =
     filter (\<lambda>n. n \<notin> set ks) (cache_names (caches w))"
proof (induction ks arbitrary: w)
  case Nil
  then show ?case by simp
next
  case (Cons k ks)
  have "cache_names (caches (caches_delete k w)) =
        filter (\<lambda>n. n \<noteq> k) (cache_names (caches w))"
    by (auto simp: caches_delete_def cache_names_def DAList.delete.rep_eq delete_keys
          removeAll_filter_not_eq intro: filter_cong)
  then show ?case using Cons by (auto intro: filter_cong)
qed

lemma names_activate:
  "cache_names (caches (activate w)) =
     filter (\<lambda>n. n = CACHE_NAME) (cache_names (caches w))"
  by (auto simp: activate_def caches_keys_def names_fold_delete intro: filter_cong)

lemma lookup_fold_delete:
  "DAList.lookup (caches (fold caches_delete ks w)) n =
     (if n \<in> set ks then None else DAList.lookup (caches w) n)"
  by (induction ks arbitrary: w) (auto simp: caches_delete_def)

lemma generation_activate: "generation (activate w) = generation w"
  by (simp add: generation_def activate_def caches_keys_def lookup_fold_delete)

text \<open>The fetch handler after a transport failure, in terms of the current generation.\<close>

lemma fetch_handler_offline:
  assumes "req_method req = ''GET''" and "net req = None"
  shows "fst (fetch_handler og net req w) =
     RespondWith (case first_match True req (generation w) of
                    Some r \<Rightarrow> Some r
                  | None \<Rightarrow>
                      first_match True (new_request (resolve og OFFLINE_URL)) (generation w))"
  using assms
  by (simp add: fetch_handler_def cache_match_def Let_def lookup_caches_open generation_def
      caches_open_def new_request_def split: option.splits)

section \<open>The install phase\<close>

text \<open>
  Claim C1, as stated: when a core asset fetch fails during install, no new generation,
  partial or empty, is retained. This is false: \<^verbatim>\<open>caches.open\<close> has created the
  cache before \<^verbatim>\<open>addAll\<close> rejects, and nothing deletes it. Installing over the earlier
  deployment while \<^verbatim>\<open>/team/\<close> answers 404 fails and leaves a second, empty cache.
\<close>

theorem install_failure_retains_empty_generation:
  "fst (install site team_missing earlier_deployment) = Inl TypeError
   \<and> cache_names (caches earlier_deployment) = [''ctc-static-v0'']
   \<and> cache_names (caches (snd (install site team_missing earlier_deployment)))
       = [''ctc-static-v0'', ''ctc-static-v1'']
   \<and> DAList.lookup (caches (snd (install site team_missing earlier_deployment))) CACHE_NAME
       = Some []"
  by (simp add: controller_defs scenario_defs)

text \<open>
  Claim C1, amended: when the fetch of a core asset yields no response or a response whose
  status is not in 200..299, the install fails with nothing stored and without skipping
  waiting; every other cache is as it was, and the current generation exists afterwards with
  exactly the pairs it had before (none when it did not exist).
\<close>

theorem install_failure_keeps_generations:
  assumes "p \<in> set CORE_ASSETS"
    and "net (new_request (resolve og p)) = None
         \<or> (\<exists>r. net (new_request (resolve og p)) = Some r \<and> \<not> ok_status (resp_status r))"
  shows "fst (install og net w) = Inl TypeError
       \<and> skip_waiting (snd (install og net w)) = skip_waiting w
       \<and> (\<forall>n. DAList.lookup (caches (snd (install og net w))) n =
               (if n = CACHE_NAME then Some (generation w) else DAList.lookup (caches w) n))"
proof -
  have "resolve og p \<in> set (map (resolve og) CORE_ASSETS)"
    using assms(1) by simp
  then have "fetch_all net (map (resolve og) CORE_ASSETS) = None"
    using assms(2) by (intro fetch_all_fails) auto
  then show ?thesis
    by (simp add: install_eq lookup_caches_open generation_def)
       (simp add: caches_open_def)
qed

text \<open>Witness for C1: the failed install over the earlier deployment keeps its cache.\<close>

theorem install_failure_keeps_generations_witness:
  "''/team/'' \<in> set CORE_ASSETS
   \<and> fst (install site team_missing earlier_deployment) = Inl TypeError
   \<and> skip_waiting (snd (install site team_missing earlier_deployment)) = False
   \<and> DAList.lookup (caches (snd (install site team_missing earlier_deployment))) ''ctc-static-v0''
       = DAList.lookup (caches earlier_deployment) ''ctc-static-v0''"
proof -
  have h1: "''/team/'' \<in> set CORE_ASSETS"
    by (simp add: CORE_ASSETS_def)
  have h2: "team_missing (new_request (resolve site ''/team/'')) = None
         \<or> (\<exists>r. team_missing (new_request (resolve site ''/team/'')) = Some r
                \<and> \<not> ok_status (resp_status r))"
    by (simp add: team_missing_def new_request_def resolve_def ok_status_def)
  have "skip_waiting earlier_deployment = False"
    by (simp add: earlier_deployment_def)
  then show ?thesis
    using h1 install_failure_keeps_generations
        [where p = "''/team/''" and net = team_missing and og = site
           and w = earlier_deployment, OF h1 h2]
    by (simp add: CACHE_NAME_def)
qed

section \<open>The fetch handler\<close>

text \<open>
  Claim C2: for a GET request, whatever response the network yields, a 404 included, is what
  the handler responds with; the state, cache storage included, is left as it was.
\<close>

theorem network_response_returned_verbatim:
  assumes "req_method req = ''GET''" and "net req = Some fresh"
  shows "fetch_handler og net req w = (RespondWith (Some fresh), w)"
  using assms by (simp add: fetch_handler_def)

text \<open>Witness for C2 (scenario D): a 404 from the origin is passed on although
  \<^verbatim>\<open>/about/\<close> is cached.\<close>

theorem network_response_returned_verbatim_witness:
  "req_method get_about = ''GET''
   \<and> all_not_found get_about
       = Some \<lparr>resp_status = 404, resp_vary = [], resp_body = ''not found''\<rparr>
   \<and> fetch_handler site all_not_found get_about serving
       = (RespondWith (Some \<lparr>resp_status = 404, resp_vary = [], resp_body = ''not found''\<rparr>),
          serving)"
proof -
  have h1: "req_method get_about = ''GET''"
    by (simp add: get_about_def)
  have h2: "all_not_found get_about
      = Some \<lparr>resp_status = 404, resp_vary = [], resp_body = ''not found''\<rparr>"
    by (simp add: all_not_found_def)
  show ?thesis
    using h1 h2 network_response_returned_verbatim
        [where req = get_about and net = all_not_found and og = site and w = serving, OF h1 h2]
    by simp
qed

text \<open>
  Claim C3, as stated: after a transport failure the stored snapshot of the request's URL,
  query string ignored, is returned when there is one. This is false: the lookup passes
  only \<^verbatim>\<open>ignoreSearch\<close>, not \<^verbatim>\<open>ignoreVary\<close>, so a snapshot whose response
  varies on a header that the request carries and the stored request does not is passed
  over. With every core asset stored from responses with \<^verbatim>\<open>Vary: Accept\<close>, a
  request for \<^verbatim>\<open>/about/?x=1\<close> with an \<^verbatim>\<open>Accept\<close> header is answered with
  the offline document although \<^verbatim>\<open>/about/\<close> is stored.
\<close>

theorem vary_mismatch_answers_offline_document:
  "req_method get_about = ''GET'' \<and> unreachable get_about = None
   \<and> (new_request \<lparr>url_origin = site, url_path = ''/about/'', url_search = []\<rparr>,
       \<lparr>resp_status = 200, resp_vary = [''accept''], resp_body = ''/about/''\<rparr>)
        \<in> set (generation serving_varying)
   \<and> fst (fetch_handler site unreachable get_about serving_varying)
       = RespondWith
           (Some \<lparr>resp_status = 200, resp_vary = [''accept''], resp_body = ''/offline.html''\<rparr>)"
  by (simp add: controller_defs scenario_defs)

text \<open>
  Claim C3, amended: for a GET request whose network attempt yields no response, the handler
  responds with the first pair of the current generation whose stored GET request agrees
  with the request in origin and path (the query strings are not compared) and whose
  response's \<^verbatim>\<open>Vary\<close> header does not name \<^verbatim>\<open>*\<close> and names only headers that
  have the same value in the stored request and in the request. When there is none, it
  responds with the first pair found in the same way for a request without headers for
  \<^verbatim>\<open>/offline.html\<close> of the worker's origin, again whatever the stored query string;
  when there is none either, with \<^verbatim>\<open>undefined\<close>.
\<close>

theorem transport_failure_falls_back:
  assumes "req_method req = ''GET''" and "net req = None"
  shows "fst (fetch_handler og net req w) =
     RespondWith
       (case find (\<lambda>(k, r). req_method k = ''GET''
                          \<and> url_origin (req_url k) = url_origin (req_url req)
                          \<and> url_path (req_url k) = url_path (req_url req)
                          \<and> (\<forall>f \<in> set (resp_vary r).
                                f \<noteq> ''*''
                                \<and> combined_value f (req_headers k)
                                    = combined_value f (req_headers req)))
               (generation w) of
          Some (k, r) \<Rightarrow> Some r
        | None \<Rightarrow>
            (case find (\<lambda>(k, r). req_method k = ''GET''
                               \<and> url_origin (req_url k) = og
                               \<and> url_path (req_url k) = ''/offline.html''
                               \<and> (\<forall>f \<in> set (resp_vary r).
                                     f \<noteq> ''*'' \<and> combined_value f (req_headers k) = None))
                    (generation w) of
               Some (k, r) \<Rightarrow> Some r
             | None \<Rightarrow> None))"
proof -
  have offline: "url_origin (req_url (new_request (resolve og OFFLINE_URL))) = og
      \<and> url_path (req_url (new_request (resolve og OFFLINE_URL))) = ''/offline.html''
      \<and> req_headers (new_request (resolve og OFFLINE_URL)) = []"
    by (simp add: new_request_def resolve_def OFFLINE_URL_def)
  have none: "combined_value f [] = None" for f
    by (simp add: combined_value_def)
  show ?thesis
    unfolding fetch_handler_offline [of req net, OF assms] first_match_find vary_agrees_def
    by (simp add: offline none split: option.splits)
qed

text \<open>Witness for C3 (scenario B): unreachable network, \<^verbatim>\<open>/about/?x=1\<close> requested,
  the snapshot of \<^verbatim>\<open>/about/\<close>, stored from a response without \<^verbatim>\<open>Vary\<close>, is
  returned.\<close>

theorem transport_failure_falls_back_witness:
  "req_method get_about = ''GET'' \<and> unreachable get_about = None
   \<and> fst (fetch_handler site unreachable get_about serving)
       = RespondWith (Some \<lparr>resp_status = 200, resp_vary = [], resp_body = ''/about/''\<rparr>)"
proof -
  have h1: "req_method get_about = ''GET''"
    by (simp add: get_about_def)
  have h2: "unreachable get_about = None"
    by (simp add: unreachable_def)
  have g: "generation serving =
      map (\<lambda>p. (new_request \<lparr>url_origin = site, url_path = p, url_search = []\<rparr>,
                \<lparr>resp_status = 200, resp_vary = [], resp_body = p\<rparr>)) CORE_ASSETS"
    by (simp add: controller_defs scenario_defs)
  show ?thesis
    using h1 h2 transport_failure_falls_back
        [where req = get_about and net = unreachable and og = site and w = serving, OF h1 h2]
    by (simp add: g CORE_ASSETS_def get_about_def site_def new_request_def)
qed

text \<open>
  Claim C4: once the install handler of this worker has succeeded, so that
  \<^verbatim>\<open>/offline.html\<close> is stored in the current generation, a GET request whose network
  attempt yields no response is always answered with some response, before as well as after
  activation.
\<close>

theorem offline_fallback_always_responds:
  assumes "install og net0 w0 = (Inr (), w1)"
    and "caches w = caches w1 \<or> caches w = caches (activate w1)"
    and "req_method req = ''GET''" and "net req = None"
  shows "\<exists>r. fst (fetch_handler og net req w) = RespondWith (Some r)"
proof -
  have g: "generation w = generation w1"
    using assms(2) generation_activate [of w1] by (auto simp: generation_def)
  have "OFFLINE_URL \<in> set CORE_ASSETS"
    by (simp add: OFFLINE_URL_def CORE_ASSETS_def)
  from install_stores_core [OF assms(1) this]
  obtain r where stored: "(new_request (resolve og OFFLINE_URL), r) \<in> set (generation w)"
    and vary: "''*'' \<notin> set (resp_vary r)"
    unfolding g by blast
  have "request_matches True (new_request (resolve og OFFLINE_URL), r)
          (new_request (resolve og OFFLINE_URL))"
    using vary by (rule new_request_matches_ignoring_search) simp_all
  from first_match_present [OF stored this]
  obtain r' where
    "first_match True (new_request (resolve og OFFLINE_URL)) (generation w) = Some r'"
    by auto
  then show ?thesis
    unfolding fetch_handler_offline [of req net, OF assms(3,4)]
    by (simp split: option.splits)
qed

text \<open>Witness for C4 (scenario C): unreachable network, a page that is not cached.\<close>

theorem offline_fallback_always_responds_witness:
  "fst (install site reachable earlier_deployment) = Inr ()
   \<and> req_method get_nonexistent = ''GET'' \<and> unreachable get_nonexistent = None
   \<and> (\<exists>r. fst (fetch_handler site unreachable get_nonexistent serving) = RespondWith (Some r))"
proof -
  have h0: "fst (install site reachable earlier_deployment) = Inr ()"
    by (simp add: controller_defs scenario_defs)
  then have h1: "install site reachable earlier_deployment
      = (Inr (), snd (install site reachable earlier_deployment))"
    by (simp add: prod_eq_iff)
  have h2: "caches serving = caches (snd (install site reachable earlier_deployment))
      \<or> caches serving = caches (activate (snd (install site reachable earlier_deployment)))"
    by (simp add: serving_def)
  have h3: "req_method get_nonexistent = ''GET''"
    by (simp add: get_nonexistent_def)
  have h4: "unreachable get_nonexistent = None"
    by (simp add: unreachable_def)
  show ?thesis
    using h0 h3 h4 offline_fallback_always_responds
        [where og = site and ?net0.0 = reachable and ?w0.0 = earlier_deployment
           and ?w1.0 = "snd (install site reachable earlier_deployment)" and w = serving
           and req = get_nonexistent and net = unreachable, OF h1 h2 h3 h4]
    by simp
qed

text \<open>
  Claim C6: for a request whose method is not GET the handler returns without responding,
  and the state is the one before: no cache was opened, read or written.
\<close>

theorem non_get_passes_through:
  assumes "req_method req \<noteq> ''GET''"
  shows "fetch_handler og net req w = (PassThrough, w)"
  using assms by (simp add: fetch_handler_def)

text \<open>Witness for C6: a POST while the network is unreachable.\<close>

theorem non_get_passes_through_witness:
  "req_method post_form \<noteq> ''GET''
   \<and> fetch_handler site unreachable post_form serving = (PassThrough, serving)"
proof -
  have h: "req_method post_form \<noteq> ''GET''"
    by (simp add: post_form_def)
  show ?thesis
    using h non_get_passes_through
        [where req = post_form and og = site and net = unreachable and w = serving, OF h]
    by simp
qed

text \<open>
  Claim C7, as stated: the cache contents after handling any request equal those before.
  This is false: after a transport failure the handler calls \<^verbatim>\<open>caches.open\<close>, which
  creates the current generation when it does not exist. On an empty storage, with the
  network unreachable, handling a GET request leaves a cache behind.
\<close>

theorem fetch_handler_creates_generation:
  "cache_names (caches empty_storage) = []
   \<and> cache_names (caches (snd (fetch_handler site unreachable get_about empty_storage)))
       = [''ctc-static-v1'']"
  by (simp add: controller_defs scenario_defs)

text \<open>
  Claim C7, amended: the fetch handler never stores, replaces or removes a response and
  never deletes a cache; the cache storage after handling a request is the storage before,
  except that the current generation is created empty when a GET request's network attempt
  yields no response and that generation does not exist. In particular a network response
  is never persisted.
\<close>

theorem fetch_handler_stores_nothing:
  "caches (snd (fetch_handler og net req w)) =
     (if req_method req = ''GET'' \<and> net req = None
         \<and> DAList.lookup (caches w) CACHE_NAME = None
      then DAList.update CACHE_NAME [] (caches w)
      else caches w)"
  by (simp add: fetch_handler_def cache_match_def caches_open_def Let_def
      split: option.splits prod.splits)

text \<open>Witness for C7 (scenario A): network reachable, the cache storage is untouched.\<close>

theorem fetch_handler_stores_nothing_witness:
  "caches (snd (fetch_handler site reachable get_about serving)) = caches serving"
  using fetch_handler_stores_nothing
      [where og = site and net = reachable and req = get_about and w = serving]
  by (simp add: reachable_def)

text \<open>
  Claim C10: for a GET request whose network attempt yields no response, when the current
  generation holds no pair agreeing with the request in origin and path and none for
  \<^verbatim>\<open>/offline.html\<close>, the handler responds with \<^verbatim>\<open>undefined\<close>.
\<close>

theorem no_offline_document_resolves_undefined:
  assumes "req_method req = ''GET''" and "net req = None"
    and "\<forall>(k, r) \<in> set (generation w).
           \<not> (url_origin (req_url k) = url_origin (req_url req)
              \<and> url_path (req_url k) = url_path (req_url req))"
    and "\<forall>(k, r) \<in> set (generation w).
           \<not> (url_origin (req_url k) = og \<and> url_path (req_url k) = ''/offline.html'')"
  shows "fst (fetch_handler og net req w) = RespondWith None"
proof -
  have "first_match True req (generation w) = None"
    using assms(3) by (rule first_match_absent)
  moreover have "first_match True (new_request (resolve og OFFLINE_URL)) (generation w) = None"
    using assms(4)
    by (intro first_match_absent) (simp add: new_request_def resolve_def OFFLINE_URL_def)
  ultimately show ?thesis
    unfolding fetch_handler_offline [of req net, OF assms(1,2)] by simp
qed

text \<open>Witness for C10: the install of this version failed on \<^verbatim>\<open>/team/\<close>, the
  network is unreachable.\<close>

theorem no_offline_document_resolves_undefined_witness:
  "req_method get_about = ''GET'' \<and> unreachable get_about = None
   \<and> generation (snd (install site team_missing earlier_deployment)) = []
   \<and> fst (fetch_handler site unreachable get_about
            (snd (install site team_missing earlier_deployment))) = RespondWith None"
proof -
  let ?w = "snd (install site team_missing earlier_deployment)"
  have h1: "req_method get_about = ''GET''"
    by (simp add: get_about_def)
  have h2: "unreachable get_about = None"
    by (simp add: unreachable_def)
  have g: "generation ?w = []"
    by (simp add: controller_defs scenario_defs)
  have h3: "\<forall>(k, r) \<in> set (generation ?w).
           \<not> (url_origin (req_url k) = url_origin (req_url get_about)
              \<and> url_path (req_url k) = url_path (req_url get_about))"
    by (simp add: g)
  have h4: "\<forall>(k, r) \<in> set (generation ?w).
           \<not> (url_origin (req_url k) = site \<and> url_path (req_url k) = ''/offline.html'')"
    by (simp add: g)
  show ?thesis
    using h1 h2 g no_offline_document_resolves_undefined
        [where req = get_about and net = unreachable and og = site and w = ?w,
          OF h1 h2 h3 h4]
    by simp
qed

section \<open>After a successful install\<close>

text \<open>
  Claim C5: when the activate handler has run after a successful install, the cache storage
  holds exactly one cache and its name is \<^verbatim>\<open>CACHE_NAME\<close>, whatever other caches
  the storage held when the install started.
\<close>

theorem activate_leaves_current_generation_only:
  assumes "install og net w0 = (Inr (), w1)"
  shows "cache_names (caches (activate w1)) = [CACHE_NAME]"
proof -
  from assms obtain batch where
    "caches w1 = DAList.update CACHE_NAME
           (filter (\<lambda>stored. \<forall>q \<in> set (core_requests og). \<not> request_matches False stored q)
              (generation w0) @ batch)
           (caches (caches_open CACHE_NAME w0))"
    by (rule install_ok)
  then have "DAList.lookup (caches w1) CACHE_NAME \<noteq> None"
    by simp
  then have "CACHE_NAME \<in> set (cache_names (caches w1))"
    by (simp add: cache_names_def DAList.lookup.rep_eq map_of_eq_None_iff)
  moreover have "distinct (cache_names (caches w1))"
    by (simp add: cache_names_def)
  ultimately show ?thesis
    by (simp add: names_activate filter_distinct_single)
qed

text \<open>Witness for C5: the cache of the earlier deployment is gone after activation.\<close>

theorem activate_leaves_current_generation_only_witness:
  "fst (install site reachable earlier_deployment) = Inr ()
   \<and> cache_names (caches (snd (install site reachable earlier_deployment)))
       = [''ctc-static-v0'', ''ctc-static-v1'']
   \<and> cache_names (caches (activate (snd (install site reachable earlier_deployment))))
       = [''ctc-static-v1'']"
proof -
  have h0: "fst (install site reachable earlier_deployment) = Inr ()"
    by (simp add: controller_defs scenario_defs)
  then have h1: "install site reachable earlier_deployment
      = (Inr (), snd (install site reachable earlier_deployment))"
    by (simp add: prod_eq_iff)
  have before: "cache_names (caches (snd (install site reachable earlier_deployment)))
       = [''ctc-static-v0'', ''ctc-static-v1'']"
    by (simp add: controller_defs scenario_defs)
  show ?thesis
    using h0 before activate_leaves_current_generation_only
        [where og = site and net = reachable and ?w0.0 = earlier_deployment
           and ?w1.0 = "snd (install site reachable earlier_deployment)", OF h1]
    by (simp add: CACHE_NAME_def)
qed

text \<open>
  Claim C8: after a successful install, a lookup in the current generation with
  \<^verbatim>\<open>ignoreSearch\<close> finds a stored response for every core asset path of the worker's
  origin, whatever the query string of the looked up URL.
\<close>

theorem core_assets_cached_after_install:
  assumes "install og net w0 = (Inr (), w1)" and "p \<in> set CORE_ASSETS"
  shows "\<exists>r. fst (cache_match CACHE_NAME
                   (new_request \<lparr>url_origin = og, url_path = p, url_search = q\<rparr>) True w1)
             = Some r"
proof -
  from install_stores_core [OF assms] obtain r where
    r: "(new_request (resolve og p), r) \<in> set (generation w1)" and
    vary: "''*'' \<notin> set (resp_vary r)" by blast
  from r have "DAList.lookup (caches w1) CACHE_NAME = Some (generation w1)"
    by (cases "DAList.lookup (caches w1) CACHE_NAME") (auto simp: generation_def)
  moreover have "request_matches True (new_request (resolve og p), r)
                   (new_request \<lparr>url_origin = og, url_path = p, url_search = q\<rparr>)"
    using vary core_path [OF assms(2), of og]
    by (intro new_request_matches_ignoring_search) simp_all
  then have "\<exists>r'. first_match True
                     (new_request \<lparr>url_origin = og, url_path = p, url_search = q\<rparr>)
                     (generation w1) = Some r'"
    by (rule first_match_present [OF r])
  ultimately show ?thesis by (simp add: cache_match_def new_request_def)
qed

text \<open>Witness for C8: \<^verbatim>\<open>/events/?page=2\<close> after installing over the earlier deployment.\<close>

theorem core_assets_cached_after_install_witness:
  "fst (install site reachable earlier_deployment) = Inr ()
   \<and> ''/events/'' \<in> set CORE_ASSETS
   \<and> (\<exists>r. fst (cache_match CACHE_NAME
                 (new_request
                    \<lparr>url_origin = site, url_path = ''/events/'', url_search = ''?page=2''\<rparr>)
                 True (snd (install site reachable earlier_deployment))) = Some r)"
proof -
  have h0: "fst (install site reachable earlier_deployment) = Inr ()"
    by (simp add: controller_defs scenario_defs)
  then have h1: "install site reachable earlier_deployment
      = (Inr (), snd (install site reachable earlier_deployment))"
    by (simp add: prod_eq_iff)
  have h2: "''/events/'' \<in> set CORE_ASSETS"
    by (simp add: CORE_ASSETS_def)
  show ?thesis
    using h0 h2 core_assets_cached_after_install
        [where og = site and net = reachable and ?w0.0 = earlier_deployment
           and ?w1.0 = "snd (install site reachable earlier_deployment)"
           and p = "''/events/''" and q = "''?page=2''", OF h1 h2]
    by simp
qed

text \<open>
  Claim C9: running the install handler again on the state a successful install left, the
  network answering as before, succeeds again, leaves the cache storage equal to that state's,
  and for every core asset exactly one stored pair of the current generation matches its
  request.
\<close>

theorem install_twice_same_state:
  assumes "install og net w0 = (Inr (), w1)"
  shows "fst (install og net w1) = Inr ()
       \<and> caches (snd (install og net w1)) = caches w1
       \<and> (\<forall>p \<in> set CORE_ASSETS.
            length (filter (\<lambda>stored. request_matches False stored (new_request (resolve og p)))
                      (generation (snd (install og net w1)))) = 1)"
proof -
  let ?kept = "\<lambda>stored. \<forall>q \<in> set (core_requests og). \<not> request_matches False stored q"
  from assms obtain batch where
    fetched: "fetch_all net (map (resolve og) CORE_ASSETS) = Some batch" and
    keys: "map fst batch = core_requests og" and
    c1: "caches w1 = DAList.update CACHE_NAME (filter ?kept (generation w0) @ batch)
           (caches (caches_open CACHE_NAME w0))" and
    gen: "generation w1 = filter ?kept (generation w0) @ batch"
    by (rule install_ok)
  have present: "DAList.lookup (caches w1) CACHE_NAME = Some (generation w1)"
    unfolding c1 gen by simp
  have opened: "caches (caches_open CACHE_NAME w1) = caches w1"
    using present by (simp add: caches_open_def)
  have in_batch: "k \<in> set (core_requests og) \<and> ''*'' \<notin> set (resp_vary r)"
    if "(k, r) \<in> set batch" for k r
    using that fetch_all_vary [OF fetched that] keys [symmetric] by force
  have self: "request_matches False (k, r) k" if "(k, r) \<in> set batch" for k r
  proof -
    from in_batch [OF that] obtain u where "k = new_request u" and "''*'' \<notin> set (resp_vary r)"
      by (auto simp: core_requests_def)
    then show ?thesis by (simp add: new_request_matches)
  qed
  have "filter ?kept batch = []"
    using self in_batch by (fastforce simp: filter_empty_conv)
  then have again: "filter ?kept (generation w1) @ batch = generation w1"
    unfolding gen by simp
  have "caches (snd (install og net w1)) =
      DAList.update CACHE_NAME (filter ?kept (generation w1) @ batch)
        (caches (caches_open CACHE_NAME w1))"
    using fetched by (simp add: install_eq)
  also have "\<dots> = caches w1"
    unfolding again opened using present by (rule update_same)
  finally have same: "caches (snd (install og net w1)) = caches w1" .
  have ok: "fst (install og net w1) = Inr ()"
    using fetched by (simp add: install_eq)
  have once: "length (filter (\<lambda>stored. request_matches False stored (new_request (resolve og p)))
                        (generation w1)) = 1"
    if p: "p \<in> set CORE_ASSETS" for p
  proof -
    let ?q = "new_request (resolve og p)"
    have q: "?q \<in> set (core_requests og)"
      using p by (simp add: core_requests_def)
    have "filter (\<lambda>stored. request_matches False stored ?q) (filter ?kept (generation w0)) = []"
      using q by (auto simp: filter_empty_conv)
    moreover have "request_matches False stored ?q \<longleftrightarrow> fst stored = ?q"
      if "stored \<in> set batch" for stored
    proof -
      obtain k r where s: "stored = (k, r)" by (cases stored)
      from in_batch [of k r] that s obtain u where k: "k = new_request u"
        by (auto simp: core_requests_def)
      show ?thesis
      proof
        assume "request_matches False stored ?q"
        then have "req_url k = req_url ?q"
          unfolding s by (rule request_matches_url)
        then show "fst stored = ?q"
          by (simp add: s k new_request_def)
      next
        assume "fst stored = ?q"
        then show "request_matches False stored ?q"
          using self [of k r] that s by simp
      qed
    qed
    then have "filter (\<lambda>stored. request_matches False stored ?q) batch
        = filter (\<lambda>stored. fst stored = ?q) batch"
      by (intro filter_cong) simp_all
    moreover have "length (filter (\<lambda>stored. fst stored = ?q) batch)
        = length (filter (\<lambda>k. k = ?q) (map fst batch))"
      by (induction batch) auto
    moreover have "distinct (core_requests og)"
      using distinct_core [of og]
      by (simp add: core_requests_def distinct_map inj_on_def new_request_def)
    then have "length (filter (\<lambda>k. k = ?q) (core_requests og)) = 1"
      using q by (simp add: filter_distinct_single)
    ultimately show ?thesis unfolding gen keys by simp
  qed
  have "generation (snd (install og net w1)) = generation w1"
    using same by (simp add: generation_def)
  then show ?thesis using ok same once by simp
qed

text \<open>Witness for C9: installing twice over the earlier deployment leaves five pairs.\<close>

theorem install_twice_same_state_witness:
  "fst (install site reachable earlier_deployment) = Inr ()
   \<and> fst (install site reachable (snd (install site reachable earlier_deployment))) = Inr ()
   \<and> caches (snd (install site reachable (snd (install site reachable earlier_deployment))))
       = caches (snd (install site reachable earlier_deployment))
   \<and> length (generation (snd (install site reachable earlier_deployment))) = 5"
proof -
  have h0: "fst (install site reachable earlier_deployment) = Inr ()"
    by (simp add: controller_defs scenario_defs)
  then have h1: "install site reachable earlier_deployment
      = (Inr (), snd (install site reachable earlier_deployment))"
    by (simp add: prod_eq_iff)
  have five: "length (generation (snd (install site reachable earlier_deployment))) = 5"
    by (simp add: controller_defs scenario_defs)
  show ?thesis
    using h0 five install_twice_same_state
        [where og = site and net = reachable and ?w0.0 = earlier_deployment
           and ?w1.0 = "snd (install site reachable earlier_deployment)", OF h1]
    by simp
qed

end
